theory Spec2Isabelle
  imports Main "HOL-Library.Word"
begin

section \<open>ANT+ heart rate device profile (src/ant/plus/heartrate.py)\<close>

text \<open>
  The module is Python 2 code (implicit relative import \<^verbatim>\<open>from plus import _EventHandler\<close>,
  only \<^verbatim>\<open>print_function\<close> taken from \<^verbatim>\<open>__future__\<close>): integers are unbounded
  (\<^typ>\<open>int\<close>), and \<^verbatim>\<open>/\<close> between two integers is floor division (\<^term>\<open>(div)\<close> on
  \<^typ>\<open>int\<close>). The payload handed to \<^verbatim>\<open>_set_data\<close> is a byte sequence: indexing it
  gives an integer between 0 and 255, read here with \<^term>\<open>uint\<close>.
\<close>

unbundle bit_operations_syntax

type_synonym byte = "8 word"

subsection \<open>Data\<close>

text \<open>
  The observer is duck-typed: \<^verbatim>\<open>getattr(self.callback, name, None)\<close> looks each method
  up and skips the call when it is absent. An observer is therefore the pair of facts
  "has \<^verbatim>\<open>device_found\<close>" and "has \<^verbatim>\<open>heartrate_data\<close>"; \<^verbatim>\<open>callback=None\<close> is \<^term>\<open>None\<close>.
  A call made to the observer is recorded as an event with the arguments passed.
\<close>

record HeartRateCallback =
  has_device_found :: bool
  has_heartrate_data :: bool

datatype event =
    Device_found int int
  | Heartrate_data "int option" int int

text \<open>An attribute read that finds no attribute raises \<^verbatim>\<open>AttributeError\<close>.\<close>

datatype error = AttributeError

text \<open>
  The attributes of a \<^verbatim>\<open>HeartRate\<close> object. A leading underscore of the source is written
  \<open>us_\<close>. The constructor creates \<^verbatim>\<open>_previous_event_time\<close>; \<^verbatim>\<open>_set_data\<close> reads and
  writes \<^verbatim>\<open>previous_event_time\<close>, another attribute, which does not exist until the first
  assignment at line 124: \<^term>\<open>None\<close> is "no such attribute".
\<close>

record HeartRate =
  callback :: "HeartRateCallback option"
  us_computed_heart_rate :: "int option"
  us_beat_count :: int
  us_previous_beat_count :: int
  us_previous_event_time :: int
  previous_event_time :: "int option"
  us_detected_device :: "(int \<times> int) option"

subsection \<open>Construction\<close>

text \<open>\<^verbatim>\<open>HeartRate.__init__\<close>, lines 72 to 79 (the channel it opens belongs to the event handler).\<close>

definition init :: "HeartRateCallback option \<Rightarrow> HeartRate" where
  "init cb =
     \<lparr> callback = cb,
       us_computed_heart_rate = None,
       us_beat_count = 0,
       us_previous_beat_count = 0,
       us_previous_event_time = 0,
       previous_event_time = None,
       us_detected_device = None \<rparr>"

subsection \<open>Handling a message\<close>

text \<open>Lines 107 to 112: the difference between two raw 8-bit beat counts, one wrap undone.\<close>

definition unwrap_difference :: "int \<Rightarrow> int \<Rightarrow> int" where
  "unwrap_difference previous_beat_count beat_count =
     (if previous_beat_count > beat_count
      then (beat_count + 256) - previous_beat_count
      else beat_count - previous_beat_count)"

text \<open>Line 118: the 16-bit event time, most significant byte at index 6.\<close>

definition event_time_of :: "byte list \<Rightarrow> int" where
  "event_time_of data = push_bit 8 (uint (data ! 6)) + uint (data ! 5)"

text \<open>
  Lines 103 to 124, the block under the lock, for a payload of 9 bytes. It returns the
  object as the block leaves it and either the local \<^verbatim>\<open>rr_interval\<close> or the exception
  that left the block. The assignments before line 120 have happened when line 120 raises.
\<close>

definition locked_set_data :: "HeartRate \<Rightarrow> byte list \<Rightarrow> HeartRate \<times> (error + int)" where
  "locked_set_data self data =
     (let self1 = self\<lparr>us_computed_heart_rate := Some (uint (data ! 8))\<rparr>;
          beat_count = uint (data ! 7);
          difference = unwrap_difference (us_previous_beat_count self1) beat_count;
          self2 = self1\<lparr>us_previous_beat_count := beat_count\<rparr>;
          self3 = self2\<lparr>us_beat_count := us_beat_count self2 + difference\<rparr>;
          event_time = event_time_of data
      in if difference = 1 then
           (case previous_event_time self3 of
              None \<Rightarrow> (self3, Inl AttributeError)
            | Some previous \<Rightarrow>
                (self3\<lparr>previous_event_time := Some event_time\<rparr>,
                 Inr ((event_time - previous) * 1000 div 1024)))
         else (self3\<lparr>previous_event_time := Some event_time\<rparr>, Inr 0))"

text \<open>Lines 126 to 129: the observer's \<^verbatim>\<open>heartrate_data\<close>, when there is one.\<close>

definition notify_data :: "HeartRate \<Rightarrow> int \<Rightarrow> event list" where
  "notify_data self rr_interval =
     (case callback self of
        None \<Rightarrow> []
      | Some cb \<Rightarrow>
          if has_heartrate_data cb
          then [Heartrate_data (us_computed_heart_rate self) (us_beat_count self) rr_interval]
          else [])"

text \<open>\<^verbatim>\<open>_set_data\<close>: the object afterwards, and the exception raised or the observer calls made.\<close>

definition set_data :: "HeartRate \<Rightarrow> byte list \<Rightarrow> HeartRate \<times> (error + event list)" where
  "set_data self data =
     (if length data \<noteq> 9 then (self, Inr [])
      else
        (case locked_set_data self data of
           (self', Inl e) \<Rightarrow> (self', Inl e)
         | (self', Inr rr_interval) \<Rightarrow> (self', Inr (notify_data self' rr_interval))))"

subsection \<open>Device discovery\<close>

text \<open>\<^verbatim>\<open>_set_detected_device\<close>, lines 131 to 138.\<close>

definition set_detected_device ::
    "HeartRate \<Rightarrow> int \<Rightarrow> int \<Rightarrow> HeartRate \<times> (error + event list)" where
  "set_detected_device self device_num trans_type =
     (let self' = self\<lparr>us_detected_device := Some (device_num, trans_type)\<rparr>
      in (self',
          Inr (case callback self' of
                 None \<Rightarrow> []
               | Some cb \<Rightarrow>
                   if has_device_found cb then [Device_found device_num trans_type] else [])))"

subsection \<open>Sequences of calls\<close>

text \<open>
  The object outlives a call that raised, with the assignments made before the raise: a
  sequence of calls goes on from the object each call leaves.
\<close>

datatype operation =
    Set_data "byte list"
  | Set_detected_device int int

fun step :: "HeartRate \<Rightarrow> operation \<Rightarrow> HeartRate" where
  "step self (Set_data data) = fst (set_data self data)"
| "step self (Set_detected_device device_num trans_type) =
     fst (set_detected_device self device_num trans_type)"

fun run :: "HeartRate \<Rightarrow> operation list \<Rightarrow> HeartRate" where
  "run self [] = self"
| "run self (x # xs) = run (step self x) xs"

text \<open>The differences the unwrap step computes along a sequence of 9-byte messages.\<close>

fun differences :: "int \<Rightarrow> byte list list \<Rightarrow> int list" where
  "differences previous [] = []"
| "differences previous (data # rest) =
     unwrap_difference previous (uint (data ! 7)) # differences (uint (data ! 7)) rest"

section \<open>Properties\<close>

subsection \<open>What a call leaves behind\<close>

lemma locked_set_data_fields:
  "us_computed_heart_rate (fst (locked_set_data s data)) = Some (uint (data ! 8))"
  "us_previous_beat_count (fst (locked_set_data s data)) = uint (data ! 7)"
  "us_beat_count (fst (locked_set_data s data)) =
     us_beat_count s + unwrap_difference (us_previous_beat_count s) (uint (data ! 7))"
  "us_detected_device (fst (locked_set_data s data)) = us_detected_device s"
  "callback (fst (locked_set_data s data)) = callback s"
  "us_previous_event_time (fst (locked_set_data s data)) = us_previous_event_time s"
  by (simp_all add: locked_set_data_def Let_def split: option.splits)

lemma previous_event_time_locked_set_data:
  "previous_event_time (fst (locked_set_data s data)) =
     (if unwrap_difference (us_previous_beat_count s) (uint (data ! 7)) = 1
         \<and> previous_event_time s = None
      then None else Some (event_time_of data))"
  by (simp add: locked_set_data_def Let_def split: option.splits)

lemma snd_locked_set_data:
  "snd (locked_set_data s data) =
     (if unwrap_difference (us_previous_beat_count s) (uint (data ! 7)) = 1
      then (case previous_event_time s of
              None \<Rightarrow> Inl AttributeError
            | Some previous \<Rightarrow> Inr ((event_time_of data - previous) * 1000 div 1024))
      else Inr 0)"
  by (simp add: locked_set_data_def Let_def split: option.splits)

lemma fst_set_data:
  "fst (set_data s data) = (if length data \<noteq> 9 then s else fst (locked_set_data s data))"
  by (simp add: set_data_def split: prod.splits sum.splits)

lemma snd_set_data:
  "length data = 9 \<Longrightarrow>
   snd (set_data s data) =
     (case snd (locked_set_data s data) of
        Inl e \<Rightarrow> Inl e
      | Inr rr_interval \<Rightarrow> Inr (notify_data (fst (locked_set_data s data)) rr_interval))"
  by (simp add: set_data_def split: prod.splits sum.splits)

lemma run_append: "run s (xs @ ys) = run (run s xs) ys"
  by (induction xs arbitrary: s) simp_all

subsection \<open>When a call raises\<close>

text \<open>
  \<^verbatim>\<open>_set_data\<close> raises exactly when a 9-byte message carries one new beat and no earlier
  message has reached line 124; \<^verbatim>\<open>_set_detected_device\<close> never raises.
\<close>

lemma set_data_raises_iff:
  "(\<exists>e. snd (set_data s data) = Inl e) \<longleftrightarrow>
     length data = 9
     \<and> unwrap_difference (us_previous_beat_count s) (uint (data ! 7)) = 1
     \<and> previous_event_time s = None"
proof (cases "length data = 9")
  case True
  then show ?thesis
    by (simp add: snd_set_data snd_locked_set_data split: option.splits)
next
  case False
  then show ?thesis by (simp add: set_data_def)
qed

lemma set_detected_device_returns:
  "\<exists>events. snd (set_detected_device s device_num trans_type) = Inr events"
  by (simp add: set_detected_device_def Let_def)

text \<open>Once \<^verbatim>\<open>previous_event_time\<close> exists it stays, so no later call raises.\<close>

lemma step_keeps_previous_event_time:
  "previous_event_time s \<noteq> None \<Longrightarrow> previous_event_time (step s x) \<noteq> None"
  by (cases x)
     (auto simp add: fst_set_data previous_event_time_locked_set_data set_detected_device_def
        Let_def)

subsection \<open>The raw beat count is a byte\<close>

lemma uint_byte_range: "0 \<le> uint (b :: byte) \<and> uint b \<le> 255"
  using uint_lt2p [of b] by simp

lemma unwrap_difference_nonneg:
  "previous \<le> 255 \<Longrightarrow> 0 \<le> beat_count \<Longrightarrow> 0 \<le> unwrap_difference previous beat_count"
  by (simp add: unwrap_difference_def)

lemma step_previous_beat_count_range:
  "0 \<le> us_previous_beat_count s \<and> us_previous_beat_count s \<le> 255 \<Longrightarrow>
   0 \<le> us_previous_beat_count (step s x) \<and> us_previous_beat_count (step s x) \<le> 255"
  using uint_byte_range
  by (cases x) (simp_all add: fst_set_data locked_set_data_fields set_detected_device_def Let_def)

lemma run_previous_beat_count_range:
  "0 \<le> us_previous_beat_count s \<and> us_previous_beat_count s \<le> 255 \<Longrightarrow>
   0 \<le> us_previous_beat_count (run s xs) \<and> us_previous_beat_count (run s xs) \<le> 255"
proof (induction xs arbitrary: s)
  case Nil
  then show ?case by simp
next
  case (Cons x xs)
  from Cons.prems
  have "0 \<le> us_previous_beat_count (step s x) \<and> us_previous_beat_count (step s x) \<le> 255"
    by (rule step_previous_beat_count_range)
  then show ?case using Cons.IH by simp
qed

lemma step_beat_count_mono:
  "us_previous_beat_count s \<le> 255 \<Longrightarrow> us_beat_count s \<le> us_beat_count (step s x)"
  using uint_byte_range unwrap_difference_nonneg
  by (cases x) (simp_all add: fst_set_data locked_set_data_fields set_detected_device_def Let_def)

lemma run_beat_count_mono:
  "0 \<le> us_previous_beat_count s \<and> us_previous_beat_count s \<le> 255 \<Longrightarrow>
   us_beat_count s \<le> us_beat_count (run s xs)"
proof (induction xs arbitrary: s)
  case Nil
  then show ?case by simp
next
  case (Cons x xs)
  have r: "0 \<le> us_previous_beat_count (step s x) \<and> us_previous_beat_count (step s x) \<le> 255"
    using Cons.prems by (rule step_previous_beat_count_range)
  have "us_beat_count s \<le> us_beat_count (step s x)"
    using Cons.prems by (simp add: step_beat_count_mono)
  also have "\<dots> \<le> us_beat_count (run (step s x) xs)"
    using r by (rule Cons.IH)
  finally show ?case by simp
qed

subsection \<open>The RR interval when the previous event time exists\<close>

text \<open>Line 118 adds the two bytes; on bytes that is the bitwise or of the shifted pair.\<close>

lemma event_time_of_or:
  "event_time_of data = (push_bit 8 (uint (data ! 6))) OR (uint (data ! 5))"
  unfolding event_time_of_def
  by (rule disjunctive_add_eq_or, rule bit_eqI)
     (auto simp add: bit_simps bit_uint_iff dest: bit_imp_le_length)

lemma rr_interval_single_beat:
  assumes "length data = 9"
    and "unwrap_difference (us_previous_beat_count s) (uint (data ! 7)) = 1"
    and "previous_event_time s = Some previous"
  shows "snd (locked_set_data s data) = Inr ((event_time_of data - previous) * 1000 div 1024)"
  using assms by (simp add: snd_locked_set_data)

text \<open>
  Previous event time 1024, previous raw beat count 10, a message with raw beat count 11
  and event time 2048 (bytes 0 and 8): 1000 ms, and the division by 1024 is exact.
\<close>

lemma rr_interval_example:
  "snd (locked_set_data (s\<lparr>us_previous_beat_count := 10, previous_event_time := Some 1024\<rparr>)
          [c, a0, a1, a2, a3, 0, 8, 11, hr]) = Inr 1000
   \<and> event_time_of [c, a0, a1, a2, a3, 0, 8, 11, hr] = 2048
   \<and> ((2048 - 1024) * 1000 :: int) mod 1024 = 0"
  by (simp add: snd_locked_set_data unwrap_difference_def event_time_of_def)

subsection \<open>Sequences of messages\<close>

lemma run_messages_beat_count:
  "\<forall>d \<in> set msgs. length d = 9 \<Longrightarrow>
   us_beat_count (run s (map Set_data msgs)) =
     us_beat_count s + sum_list (differences (us_previous_beat_count s) msgs)"
proof (induction msgs arbitrary: s)
  case Nil
  then show ?case by simp
next
  case (Cons d msgs)
  then have len: "length d = 9" and rest: "\<forall>d \<in> set msgs. length d = 9"
    by simp_all
  let ?s' = "fst (set_data s d)"
  have "us_beat_count (run ?s' (map Set_data msgs)) =
          us_beat_count ?s' + sum_list (differences (us_previous_beat_count ?s') msgs)"
    using rest by (rule Cons.IH)
  then show ?case
    using len by (simp add: fst_set_data locked_set_data_fields)
qed

text \<open>Whatever the previous raw count, the next raw count (modulo 256) adds one beat.\<close>

lemma one_more_beat:
  assumes "0 \<le> us_previous_beat_count s" and "us_previous_beat_count s \<le> 255"
  shows "\<exists>d. length d = 9 \<and> us_beat_count (step s (Set_data d)) = us_beat_count s + 1"
proof -
  define b :: byte where "b = word_of_int (us_previous_beat_count s + 1)"
  define d :: "byte list" where "d = [0, 0, 0, 0, 0, 0, 0, b, 0]"
  have u: "uint b = (us_previous_beat_count s + 1) mod 256"
    unfolding b_def by (simp only: uint_word_of_int) simp
  have "unwrap_difference (us_previous_beat_count s) (uint b) = 1"
  proof (cases "us_previous_beat_count s = 255")
    case True
    then show ?thesis by (simp add: u unwrap_difference_def)
  next
    case False
    with assms have "(us_previous_beat_count s + 1) mod 256 = us_previous_beat_count s + 1"
      by simp
    then show ?thesis by (simp add: u unwrap_difference_def)
  qed
  then have "length d = 9 \<and> us_beat_count (step s (Set_data d)) = us_beat_count s + 1"
    by (simp add: d_def fst_set_data locked_set_data_fields)
  then show ?thesis by blast
qed

lemma any_beat_count_reached:
  "\<exists>msgs. (\<forall>d \<in> set msgs. length d = 9) \<and>
      us_beat_count (run (init cb) (map Set_data msgs)) = int n"
proof (induction n)
  case 0
  have "(\<forall>d \<in> set ([] :: byte list list). length d = 9) \<and>
        us_beat_count (run (init cb) (map Set_data [])) = int 0"
    by (simp add: init_def)
  then show ?case by blast
next
  case (Suc n)
  then obtain msgs where m: "\<forall>d \<in> set msgs. length d = 9"
    and c: "us_beat_count (run (init cb) (map Set_data msgs)) = int n"
    by blast
  let ?s = "run (init cb) (map Set_data msgs)"
  have "0 \<le> us_previous_beat_count ?s \<and> us_previous_beat_count ?s \<le> 255"
    by (rule run_previous_beat_count_range) (simp add: init_def)
  then obtain d where d: "length d = 9"
    and b: "us_beat_count (step ?s (Set_data d)) = us_beat_count ?s + 1"
    using one_more_beat [of ?s] by blast
  have "run (init cb) (map Set_data (msgs @ [d])) = step ?s (Set_data d)"
    by (simp add: run_append)
  with b c have "us_beat_count (run (init cb) (map Set_data (msgs @ [d]))) = int (Suc n)"
    by simp
  moreover have "\<forall>x \<in> set (msgs @ [d]). length x = 9"
    using m d by simp
  ultimately show ?case by blast
qed

section \<open>The claims\<close>

text \<open>
  C1. With no observer registered, \<^verbatim>\<open>_set_data\<close> and \<^verbatim>\<open>_set_detected_device\<close> should
  complete without raising for every input. The code does not: on a freshly constructed
  object without observer, a 9-byte message whose raw beat count is 1 makes line 120 read
  \<^verbatim>\<open>self.previous_event_time\<close>, which the constructor never created (it created
  \<^verbatim>\<open>_previous_event_time\<close>), and the call leaves with \<^verbatim>\<open>AttributeError\<close>, the heart rate
  and both beat counts already written.
\<close>

theorem set_data_first_beat_raises:
  "set_data (init None) [0, 0, 0, 0, 0, 0, 0, 1, 60] =
     (\<lparr> callback = None, us_computed_heart_rate = Some 60, us_beat_count = 1,
        us_previous_beat_count = 1, us_previous_event_time = 0,
        previous_event_time = None, us_detected_device = None \<rparr>,
      Inl AttributeError)"
  by (simp add: set_data_def locked_set_data_def init_def unwrap_difference_def
        event_time_of_def Let_def)

text \<open>
  C2. A payload whose length is not 9 is ignored: \<^verbatim>\<open>_set_data\<close> returns with every
  attribute of the object as it was and no observer call made.
\<close>

theorem set_data_wrong_length_ignored:
  "length data \<noteq> 9 \<Longrightarrow> set_data s data = (s, Inr [])"
  by (simp add: set_data_def)

theorem set_data_wrong_length_ignored_witness:
  "length [0, 0, 0, 0, 0, 0, 4, 1 :: byte] \<noteq> 9 \<and>
   set_data (init (Some \<lparr>has_device_found = True, has_heartrate_data = True\<rparr>))
       [0, 0, 0, 0, 0, 0, 4, 1]
     = (init (Some \<lparr>has_device_found = True, has_heartrate_data = True\<rparr>), Inr [])"
  using set_data_wrong_length_ignored
    [of "[0, 0, 0, 0, 0, 0, 4, 1]"
        "init (Some \<lparr>has_device_found = True, has_heartrate_data = True\<rparr>)"]
  by simp

text \<open>
  C3. Starting from the constructed object, whose cumulative beat count is 0, no sequence
  of calls to \<^verbatim>\<open>_set_data\<close> and \<^verbatim>\<open>_set_detected_device\<close> ever decreases the cumulative
  beat count: after any further calls it is at least what it was, also across calls that
  raised.
\<close>

theorem beat_count_never_decreases:
  "us_beat_count (init cb) = 0 \<and>
   us_beat_count (run (init cb) ops) \<le> us_beat_count (run (init cb) (ops @ later))"
proof -
  have "0 \<le> us_previous_beat_count (run (init cb) ops)
        \<and> us_previous_beat_count (run (init cb) ops) \<le> 255"
    by (rule run_previous_beat_count_range) (simp add: init_def)
  then have "us_beat_count (run (init cb) ops) \<le> us_beat_count (run (run (init cb) ops) later)"
    by (rule run_beat_count_mono)
  then show ?thesis by (simp add: run_append init_def)
qed

text \<open>
  C4. For a 9-byte message the cumulative beat count grows by
  \<open>(raw + 256) - previous\<close> when the previous raw beat count is greater than the raw beat
  count of the message, and by \<open>raw - previous\<close> otherwise. Messages with raw beat counts
  254, 255, 0, 1, fed in this order, increase the cumulative count by 1, 1, 1 from each
  message to the next.
\<close>

theorem unwrap_difference_added:
  "(length data = 9 \<longrightarrow>
      us_beat_count (fst (set_data s data)) - us_beat_count s =
        (if us_previous_beat_count s > uint (data ! 7)
         then (uint (data ! 7) + 256) - us_previous_beat_count s
         else uint (data ! 7) - us_previous_beat_count s)) \<and>
   (length d1 = 9 \<and> d1 ! 7 = 254 \<and> length d2 = 9 \<and> d2 ! 7 = 255 \<and>
    length d3 = 9 \<and> d3 ! 7 = 0 \<and> length d4 = 9 \<and> d4 ! 7 = 1 \<longrightarrow>
      us_beat_count (run s [Set_data d1, Set_data d2])
        - us_beat_count (run s [Set_data d1]) = 1 \<and>
      us_beat_count (run s [Set_data d1, Set_data d2, Set_data d3])
        - us_beat_count (run s [Set_data d1, Set_data d2]) = 1 \<and>
      us_beat_count (run s [Set_data d1, Set_data d2, Set_data d3, Set_data d4])
        - us_beat_count (run s [Set_data d1, Set_data d2, Set_data d3]) = 1)"
  by (simp add: fst_set_data locked_set_data_fields unwrap_difference_def)

theorem unwrap_difference_added_witness:
  "length [0, 0, 0, 0, 0, 0, 0, 254, 60 :: byte] = 9 \<and>
   us_beat_count (fst (set_data (init None) [0, 0, 0, 0, 0, 0, 0, 254, 60]))
     - us_beat_count (init None) = 254 \<and>
   us_beat_count (run (init None)
       [Set_data [0, 0, 0, 0, 0, 0, 0, 254, 60], Set_data [0, 0, 0, 0, 0, 0, 3, 255, 61]])
     - us_beat_count (run (init None) [Set_data [0, 0, 0, 0, 0, 0, 0, 254, 60]]) = 1 \<and>
   us_beat_count (run (init None)
       [Set_data [0, 0, 0, 0, 0, 0, 0, 254, 60], Set_data [0, 0, 0, 0, 0, 0, 3, 255, 61],
        Set_data [0, 0, 0, 0, 0, 0, 6, 0, 62]])
     - us_beat_count (run (init None)
       [Set_data [0, 0, 0, 0, 0, 0, 0, 254, 60], Set_data [0, 0, 0, 0, 0, 0, 3, 255, 61]]) = 1 \<and>
   us_beat_count (run (init None)
       [Set_data [0, 0, 0, 0, 0, 0, 0, 254, 60], Set_data [0, 0, 0, 0, 0, 0, 3, 255, 61],
        Set_data [0, 0, 0, 0, 0, 0, 6, 0, 62], Set_data [0, 0, 0, 0, 0, 0, 9, 1, 63]])
     - us_beat_count (run (init None)
       [Set_data [0, 0, 0, 0, 0, 0, 0, 254, 60], Set_data [0, 0, 0, 0, 0, 0, 3, 255, 61],
        Set_data [0, 0, 0, 0, 0, 0, 6, 0, 62]]) = 1"
  using unwrap_difference_added
    [of "[0, 0, 0, 0, 0, 0, 0, 254, 60]" "init None" "[0, 0, 0, 0, 0, 0, 0, 254, 60]"
        "[0, 0, 0, 0, 0, 0, 3, 255, 61]" "[0, 0, 0, 0, 0, 0, 6, 0, 62]"
        "[0, 0, 0, 0, 0, 0, 9, 1, 63]"]
  by (simp add: init_def)

text \<open>
  C5. For a 9-byte message with beat-count difference 1 the RR interval should be
  \<open>(event_time - previous_event_time) * 1000 / 1024\<close>. On the constructed object (previous
  raw beat count 0, \<^verbatim>\<open>_previous_event_time\<close> 0) a message with raw beat count 1 and event
  time 1024 has difference 1, and the block under the lock produces no RR interval: it
  raises \<^verbatim>\<open>AttributeError\<close>, for any observer. (Where \<^verbatim>\<open>previous_event_time\<close> exists the
  formula holds: \<open>rr_interval_single_beat\<close>, \<open>rr_interval_example\<close>.)
\<close>

theorem rr_interval_first_beat_raises:
  "unwrap_difference (us_previous_beat_count (init cb))
      (uint ([0, 0, 0, 0, 0, 0, 4, 1, 60] ! 7 :: byte)) = 1 \<and>
   us_previous_event_time (init cb) = 0 \<and>
   event_time_of [0, 0, 0, 0, 0, 0, 4, 1, 60] = 1024 \<and>
   snd (locked_set_data (init cb) [0, 0, 0, 0, 0, 0, 4, 1, 60]) = Inl AttributeError"
  by (simp add: locked_set_data_def init_def unwrap_difference_def event_time_of_def Let_def)

text \<open>
  C6. For a 9-byte message whose beat-count difference is 0 or at least 2, the RR interval
  is 0 whatever the event-time bytes and the stored previous event time are: the local
  \<^verbatim>\<open>rr_interval\<close> is 0, the call does not raise, and an observer that is called receives 0.
\<close>

theorem non_unit_difference_no_rr:
  assumes "length data = 9"
    and "unwrap_difference (us_previous_beat_count s) (uint (data ! 7)) = 0
         \<or> 2 \<le> unwrap_difference (us_previous_beat_count s) (uint (data ! 7))"
  shows "snd (locked_set_data s data) = Inr 0 \<and>
         snd (set_data s data) = Inr (notify_data (fst (set_data s data)) 0) \<and>
         (\<forall>hr bc rr. Heartrate_data hr bc rr \<in> set (notify_data (fst (set_data s data)) 0)
            \<longrightarrow> rr = 0)"
proof -
  from assms(2) have "unwrap_difference (us_previous_beat_count s) (uint (data ! 7)) \<noteq> 1"
    by auto
  then have l: "snd (locked_set_data s data) = Inr 0"
    by (simp add: snd_locked_set_data)
  moreover have "snd (set_data s data) = Inr (notify_data (fst (set_data s data)) 0)"
    using assms(1) l by (simp add: snd_set_data fst_set_data)
  moreover have "\<forall>hr bc rr.
      Heartrate_data hr bc rr \<in> set (notify_data (fst (set_data s data)) 0) \<longrightarrow> rr = 0"
    by (auto simp add: notify_data_def split: option.splits if_splits)
  ultimately show ?thesis by simp
qed

theorem non_unit_difference_no_rr_witness:
  "length [0, 0, 0, 0, 0, 7, 4, 5, 60 :: byte] = 9 \<and>
   unwrap_difference
      (us_previous_beat_count (init (Some \<lparr>has_device_found = True, has_heartrate_data = True\<rparr>)))
      (uint ([0, 0, 0, 0, 0, 7, 4, 5, 60 :: byte] ! 7)) = 5 \<and>
   snd (set_data (init (Some \<lparr>has_device_found = True, has_heartrate_data = True\<rparr>))
          [0, 0, 0, 0, 0, 7, 4, 5, 60])
     = Inr [Heartrate_data (Some 60) 5 0]"
  using non_unit_difference_no_rr
    [of "[0, 0, 0, 0, 0, 7, 4, 5, 60]"
        "init (Some \<lparr>has_device_found = True, has_heartrate_data = True\<rparr>)"]
  by (simp add: init_def unwrap_difference_def notify_data_def fst_set_data
        locked_set_data_fields)

text \<open>
  C7. \<^verbatim>\<open>_set_detected_device\<close> leaves the computed heart rate, the cumulative beat count,
  the previous raw beat count and the previous event time (both attributes of that name)
  as they were, for every object and arguments; \<^verbatim>\<open>_set_data\<close> leaves the detected device
  as it was, for every payload.
\<close>

theorem discovery_independence:
  "us_computed_heart_rate (fst (set_detected_device s device_num trans_type))
     = us_computed_heart_rate s \<and>
   us_beat_count (fst (set_detected_device s device_num trans_type)) = us_beat_count s \<and>
   us_previous_beat_count (fst (set_detected_device s device_num trans_type))
     = us_previous_beat_count s \<and>
   us_previous_event_time (fst (set_detected_device s device_num trans_type))
     = us_previous_event_time s \<and>
   previous_event_time (fst (set_detected_device s device_num trans_type))
     = previous_event_time s \<and>
   us_detected_device (fst (set_data s data)) = us_detected_device s"
  by (simp add: set_detected_device_def Let_def fst_set_data locked_set_data_fields)

text \<open>
  C9. After construction and after any sequence of calls, with any payloads, the stored
  previous raw beat count is between 0 and 255; so the difference the unwrap step computes
  for the next message is never negative.
\<close>

theorem previous_beat_count_in_byte_range:
  "us_previous_beat_count (init cb) = 0 \<and>
   0 \<le> us_previous_beat_count (run (init cb) ops) \<and>
   us_previous_beat_count (run (init cb) ops) \<le> 255 \<and>
   0 \<le> unwrap_difference (us_previous_beat_count (run (init cb) ops))
         (uint ((data :: byte list) ! 7))"
proof -
  have r: "0 \<le> us_previous_beat_count (run (init cb) ops) \<and>
        us_previous_beat_count (run (init cb) ops) \<le> 255"
    by (rule run_previous_beat_count_range) (simp add: init_def)
  moreover have "0 \<le> unwrap_difference (us_previous_beat_count (run (init cb) ops))
        (uint (data ! 7))"
    using r uint_byte_range [of "data ! 7"] by (simp add: unwrap_difference_nonneg)
  ultimately show ?thesis by (simp add: init_def)
qed

text \<open>
  C10. The cumulative beat count is an unbounded integer: after any sequence of 9-byte
  messages it is the count before plus the exact sum of the unwrap differences of the
  messages (from the constructed object: that sum), and no width bounds it: for every
  \<open>w\<close> some sequence of messages brings the count of the constructed object to \<open>2 ^ w\<close>.
\<close>

theorem beat_count_exact_sum:
  "((\<forall>d \<in> set msgs. length d = 9) \<longrightarrow>
      us_beat_count (run s (map Set_data msgs)) =
        us_beat_count s + sum_list (differences (us_previous_beat_count s) msgs) \<and>
      us_beat_count (run (init cb) (map Set_data msgs)) = sum_list (differences 0 msgs)) \<and>
   (\<exists>long. (\<forall>d \<in> set long. length d = 9) \<and>
      us_beat_count (run (init cb) (map Set_data long)) = 2 ^ w)"
proof -
  have "\<exists>long. (\<forall>d \<in> set long. length d = 9) \<and>
      us_beat_count (run (init cb) (map Set_data long)) = int (2 ^ w)"
    by (rule any_beat_count_reached)
  then have "\<exists>long. (\<forall>d \<in> set long. length d = 9) \<and>
      us_beat_count (run (init cb) (map Set_data long)) = 2 ^ w"
    by simp
  moreover have "(\<forall>d \<in> set msgs. length d = 9) \<longrightarrow>
      us_beat_count (run (init cb) (map Set_data msgs)) = sum_list (differences 0 msgs)"
    using run_messages_beat_count [of msgs "init cb"] by (simp add: init_def)
  ultimately show ?thesis
    using run_messages_beat_count [of msgs s] by blast
qed

theorem beat_count_exact_sum_witness:
  "map length [[0, 0, 0, 0, 0, 0, 0, 254, 60], [0, 0, 0, 0, 0, 0, 3, 255, 61],
               [0, 0, 0, 0, 0, 0, 6, 0, 62 :: byte]] = [9, 9, 9] \<and>
   us_beat_count (run (init None)
      (map Set_data [[0, 0, 0, 0, 0, 0, 0, 254, 60], [0, 0, 0, 0, 0, 0, 3, 255, 61],
                     [0, 0, 0, 0, 0, 0, 6, 0, 62]])) = 256"
  using beat_count_exact_sum
    [of "[[0, 0, 0, 0, 0, 0, 0, 254, 60], [0, 0, 0, 0, 0, 0, 3, 255, 61],
          [0, 0, 0, 0, 0, 0, 6, 0, 62]]"
        "init None" None 8]
  by (simp add: unwrap_difference_def)

end
